theory Spec2Isabelle
  imports Complex_Main
begin

unbundle bit_operations_syntax

section \<open>Data model of \<open>detect_person.py\<close>\<close>

text \<open>
  The script is one module: start-up code (lines 9 to 79), the monitoring loop (lines 81
  to 164) and the clean-up (lines 166 to 170). The embedding covers the variables of the
  loop, the loop body and the clean-up. Every call into a library (camera, detector,
  clock, file system, notification, window) is an input of the tick that makes it, so
  that a tick is a function of its inputs and of the three module variables the loop
  updates. The calls the script wraps in \<open>try\<close> may raise; the camera, the detector, the
  clocks, \<open>waitKey\<close> and \<open>logging\<close> are taken to return.

  Times read by \<open>time.time()\<close> are real numbers here; Python's floats and the rounding
  of their subtraction are not modelled.
\<close>

type_synonym box = "nat \<times> nat \<times> nat \<times> nat"

text \<open>
  An image is either a frame as the camera delivered it (named by a number) or what
  \<open>results[0].plot()\<close> returns: that frame with the boxes of \<open>results[0]\<close> drawn on it.
\<close>

datatype image = Frame nat | Annotated nat "box list"

text \<open>The value of \<open>datetime.now()\<close>, by its fields.\<close>

record datetime =
  year :: nat
  month :: nat
  day :: nat
  hour :: nat
  minute :: nat
  second :: nat
  microsecond :: nat

text \<open>
  An exception caught by one of the \<open>except Exception as e\<close> clauses: one raised by the
  library call inside the \<open>try\<close> (described by its text), or the \<open>NameError\<close> that Python
  raises when a module variable is read before its first assignment.
\<close>

datatype exn = Raised string | NameError string

datatype severity = INFO | WARNING | ERROR

text \<open>
  The log messages of the loop and of the clean-up, one constructor for each
  \<open>logging\<close> call, in the order of the source: line 87, 107, 115, 117, 130, 132, 134,
  142, 157, 163, 169 and 170.
\<close>

datatype msg =
    CannotReadFrame
  | PersonDetected nat
  | PhotoSaved string
  | PhotoSaveFailed exn
  | NotificationSent
  | NotificationFailed exn
  | NotificationSkipped
  | PersonLeft
  | DisplayFailed exn
  | QuitKey
  | Released
  | ScriptEnd

text \<open>
  What a run does to the outside, in order: the frames it asks the camera for, its log
  records, and its calls of \<open>results[0].plot()\<close>, \<open>cv2.imwrite\<close>,
  \<open>notification.notify\<close>, \<open>cv2.imshow\<close>, \<open>cap.release\<close> and
  \<open>cv2.destroyAllWindows\<close>. A call is recorded when it is made, whether or not it
  raises.
\<close>

datatype effect =
    Cap_read
  | Log severity msg
  | Plot_call
  | Imwrite string image
  | Notify
  | Imshow image
  | Release
  | DestroyAllWindows

text \<open>
  What the libraries return to one iteration of the loop: \<open>cap.read()\<close>, the detector's
  results (each \<open>Results\<close> object by its \<open>boxes\<close>), \<open>time.time()\<close>, \<open>datetime.now()\<close>,
  the exception that \<open>plot\<close>, \<open>imwrite\<close>, \<open>notify\<close> and \<open>imshow\<close> raise if they raise,
  what \<open>cv2.imwrite\<close> returns if it returns, and \<open>cv2.waitKey(1)\<close>. A value is read
  only if the iteration makes the call.

  \<open>cv2.imwrite\<close> reports a file it could not write by returning \<open>False\<close>; it raises
  only on arguments it cannot use. The file is on disk exactly when the call returns
  \<open>True\<close>.
\<close>

record tick_input =
  read_ret :: bool
  read_frame :: nat
  infer_results :: "box list list"
  time_time :: real
  datetime_now :: datetime
  plot_raises :: "string option"
  imwrite_raises :: "string option"
  imwrite_ret :: bool
  notify_raises :: "string option"
  imshow_raises :: "string option"
  waitKey_ret :: int

text \<open>
  The module variables the loop assigns: lines 73 and 75, and \<open>annotated_frame\<close>, which
  has no value until line 112 first assigns it.
\<close>

record vars =
  person_detected_previously :: bool
  last_notification_time :: real
  annotated_frame :: "image option"

definition initial_vars :: vars where
  "initial_vars =
     \<lparr>person_detected_previously = False, last_notification_time = 0,
      annotated_frame = None\<rparr>"

definition notification_cooldown :: real where
  "notification_cooldown = 15"

definition photo_dir :: string where
  "photo_dir = ''detected_persons''"

section \<open>The timestamp and the file name of a photo\<close>

definition digit_char :: "nat \<Rightarrow> char" where
  "digit_char d = char_of (48 + d)"

text \<open>
  A field of \<open>strftime\<close> printed in decimal on \<open>w\<close> digits, zero-padded. The fields of a
  \<open>datetime\<close> fit their widths (\<open>valid_datetime\<close> below), so no digit is lost. The year
  is printed on four digits, as \<open>%Y\<close> prints every year from 1000 on; for an earlier
  year the padding is the C library's choice (glibc prints none), and \<open>datetime.now()\<close>
  does not return one.
\<close>

fun zpad :: "nat \<Rightarrow> nat \<Rightarrow> string" where
  "zpad 0 n = []"
| "zpad (Suc w) n = zpad w (n div 10) @ [digit_char (n mod 10)]"

definition valid_datetime :: "datetime \<Rightarrow> bool" where
  "valid_datetime d \<longleftrightarrow>
     1 \<le> year d \<and> year d \<le> 9999 \<and> 1 \<le> month d \<and> month d \<le> 12 \<and>
     1 \<le> day d \<and> day d \<le> 31 \<and> hour d \<le> 23 \<and> minute d \<le> 59 \<and>
     second d \<le> 59 \<and> microsecond d \<le> 999999"

text \<open>\<open>strftime('%Y%m%d_%H%M%S_%f')\<close>, line 103.\<close>

definition strftime :: "datetime \<Rightarrow> string" where
  "strftime d =
     zpad 4 (year d) @ zpad 2 (month d) @ zpad 2 (day d) @ ''_'' @
     zpad 2 (hour d) @ zpad 2 (minute d) @ zpad 2 (second d) @ ''_'' @
     zpad 6 (microsecond d)"

text \<open>The slice \<open>[:-3]\<close> of line 103 drops the last three characters.\<close>

definition timestamp_str :: "datetime \<Rightarrow> string" where
  "timestamp_str d = (let s = strftime d in take (length s - 3) s)"

text \<open>\<open>os.path.join\<close> of two components, with the separator of POSIX.\<close>

definition os_path_join :: "string \<Rightarrow> string \<Rightarrow> string" where
  "os_path_join a b =
     (case b of
        c # _ \<Rightarrow>
          if c = CHR ''/'' then b
          else if a = [] \<or> last a = CHR ''/'' then a @ b
          else a @ ''/'' @ b
      | [] \<Rightarrow> if a = [] \<or> last a = CHR ''/'' then a else a @ ''/'')"

text \<open>Line 113.\<close>

definition photo_filename :: "string \<Rightarrow> string" where
  "photo_filename ts = os_path_join photo_dir (''person_'' @ ts @ ''.jpg'')"

section \<open>One iteration of the loop\<close>

text \<open>Lines 95 to 97: \<open>results and len(results[0].boxes) > 0\<close>.\<close>

definition person_detected_current_frame :: "box list list \<Rightarrow> bool" where
  "person_detected_current_frame results =
     (case results of [] \<Rightarrow> False | r # _ \<Rightarrow> length r > 0)"

text \<open>
  Lines 110 to 118, the photo: \<open>plot\<close>, then \<open>imwrite\<close>, then the log record; an
  exception of either call is logged and ends the block. \<open>annotated_frame\<close> is assigned
  only if \<open>plot\<close> returns. Line 114 is a statement of its own: what \<open>imwrite\<close> returns
  is dropped, and line 115 logs the photo as saved whenever the call returns.
\<close>

definition save_photo ::
    "tick_input \<Rightarrow> box list \<Rightarrow> string \<Rightarrow> vars \<Rightarrow> vars \<times> effect list" where
  "save_photo i r ts v =
     (case plot_raises i of
        Some e \<Rightarrow> (v, [Plot_call, Log ERROR (PhotoSaveFailed (Raised e))])
      | None \<Rightarrow>
          let img = Annotated (read_frame i) r;
              v' = v\<lparr>annotated_frame := Some img\<rparr>;
              fn = photo_filename ts
          in (case imwrite_raises i of
                Some e \<Rightarrow>
                  (v', [Plot_call, Imwrite fn img, Log ERROR (PhotoSaveFailed (Raised e))])
              | None \<Rightarrow> (v', [Plot_call, Imwrite fn img, Log INFO (PhotoSaved fn)])))"

text \<open>
  Lines 121 to 134, the notification under its cooldown. \<open>last_notification_time\<close> is
  assigned after \<open>notify\<close> inside the \<open>try\<close>, so only when \<open>notify\<close> returns.
\<close>

definition send_notification :: "tick_input \<Rightarrow> real \<Rightarrow> vars \<Rightarrow> vars \<times> effect list" where
  "send_notification i current_time v =
     (if current_time - last_notification_time v > notification_cooldown then
        (case notify_raises i of
           None \<Rightarrow>
             (v\<lparr>last_notification_time := current_time\<rparr>, [Notify, Log INFO NotificationSent])
         | Some e \<Rightarrow> (v, [Notify, Log ERROR (NotificationFailed (Raised e))]))
      else (v, [Log INFO NotificationSkipped]))"

text \<open>
  Lines 100 to 137, the branch taken when a person is detected and was not before.
  Line 106 reads \<open>results[0]\<close> outside any \<open>try\<close>: on an empty \<open>results\<close> that is an
  uncaught \<open>IndexError\<close>, the result \<open>None\<close> here.
\<close>

definition arrival_branch ::
    "tick_input \<Rightarrow> box list list \<Rightarrow> vars \<Rightarrow> (vars \<times> effect list) option" where
  "arrival_branch i results v =
     (case results of
        [] \<Rightarrow> None
      | r # _ \<Rightarrow>
          let current_time = time_time i;
              ts = timestamp_str (datetime_now i);
              es1 = [Log INFO (PersonDetected (length r))];
              (v2, es2) = save_photo i r ts v;
              (v3, es3) = send_notification i current_time v2
          in Some (v3\<lparr>person_detected_previously := True\<rparr>, es1 @ es2 @ es3))"

text \<open>Lines 140 to 143, the branch taken when nobody is detected and a person was before.\<close>

definition departure_branch :: "vars \<Rightarrow> vars \<times> effect list" where
  "departure_branch v = (v\<lparr>person_detected_previously := False\<rparr>, [Log INFO PersonLeft])"

text \<open>
  Lines 147 to 157. With a person in the frame the window shows the variable
  \<open>annotated_frame\<close>, whatever it holds; reading it before its first assignment raises
  \<open>NameError\<close>, which the \<open>except\<close> of line 156 catches as it catches a failure of
  \<open>imshow\<close>.
\<close>

definition imshow :: "tick_input \<Rightarrow> image \<Rightarrow> effect list" where
  "imshow i img =
     (case imshow_raises i of
        None \<Rightarrow> [Imshow img]
      | Some e \<Rightarrow> [Imshow img, Log ERROR (DisplayFailed (Raised e))])"

definition display :: "tick_input \<Rightarrow> bool \<Rightarrow> vars \<Rightarrow> effect list" where
  "display i cur v =
     (if cur then
        (case annotated_frame v of
           None \<Rightarrow> [Log ERROR (DisplayFailed (NameError ''annotated_frame''))]
         | Some a \<Rightarrow> imshow i a)
      else imshow i (Frame (read_frame i)))"

text \<open>Line 162: \<open>cv2.waitKey(1) & 0xFF == ord('q')\<close>, and \<open>ord('q')\<close> is 113.\<close>

definition quit_requested :: "tick_input \<Rightarrow> bool" where
  "quit_requested i \<longleftrightarrow> (waitKey_ret i AND 255) = 113"

text \<open>
  How an iteration ends: the loop goes on, a \<open>break\<close> leaves it, or an uncaught
  exception ends the script.
\<close>

datatype control = Continue | Break | Crash

text \<open>Lines 82 to 164: one iteration, from the variables before it to those after it.\<close>

definition tick :: "tick_input \<Rightarrow> vars \<Rightarrow> control \<times> vars \<times> effect list" where
  "tick i v =
     (if \<not> read_ret i then (Break, v, [Cap_read, Log WARNING CannotReadFrame])
      else
        let results = infer_results i;
            cur = person_detected_current_frame results
        in case (if cur \<and> \<not> person_detected_previously v then arrival_branch i results v
                 else if \<not> cur \<and> person_detected_previously v then Some (departure_branch v)
                 else Some (v, [])) of
             None \<Rightarrow> (Crash, v, [Cap_read])
           | Some (v1, es1) \<Rightarrow>
               let es2 = display i cur v1
               in if quit_requested i
                  then (Break, v1, [Cap_read] @ es1 @ es2 @ [Log INFO QuitKey])
                  else (Continue, v1, [Cap_read] @ es1 @ es2))"

section \<open>The loop and the session\<close>

text \<open>
  The loop of line 81 on a script of inputs, one element for each iteration: the list
  of the iterations it runs, each with how it ended, the variables after it and what it
  did. The loop stops after the first iteration that does not end with \<open>Continue\<close>; a
  script that is used up before that leaves the loop running.
\<close>

fun main_loop :: "tick_input list \<Rightarrow> vars \<Rightarrow> (control \<times> vars \<times> effect list) list" where
  "main_loop [] v = []"
| "main_loop (i # is) v =
     (case tick i v of
        (Continue, v', es) \<Rightarrow> (Continue, v', es) # main_loop is v'
      | (c, v', es) \<Rightarrow> [(c, v', es)])"

definition step_ctl :: "control \<times> vars \<times> effect list \<Rightarrow> control" where
  "step_ctl s = fst s"

definition step_vars :: "control \<times> vars \<times> effect list \<Rightarrow> vars" where
  "step_vars s = fst (snd s)"

definition step_effects :: "control \<times> vars \<times> effect list \<Rightarrow> effect list" where
  "step_effects s = snd (snd s)"

text \<open>Lines 167 to 170.\<close>

definition cleanup :: "effect list" where
  "cleanup = [Release, DestroyAllWindows, Log INFO Released, Log INFO ScriptEnd]"

text \<open>
  A session from line 73 on: \<open>Exited\<close> when the loop was left by a \<open>break\<close> and the
  clean-up ran, \<open>Aborted\<close> when an uncaught exception ended the script, \<open>Running\<close> when
  the loop is still running at the end of the script of inputs; each with everything
  done so far.
\<close>

datatype outcome = Exited "effect list" | Aborted "effect list" | Running "effect list"

definition loop_exit :: "(control \<times> vars \<times> effect list) list \<Rightarrow> control" where
  "loop_exit steps = (if steps = [] then Continue else step_ctl (last steps))"

definition session :: "tick_input list \<Rightarrow> outcome" where
  "session inputs =
     (let steps = main_loop inputs initial_vars;
          trace = concat (map step_effects steps)
      in case loop_exit steps of
           Break \<Rightarrow> Exited (trace @ cleanup)
         | Crash \<Rightarrow> Aborted trace
         | Continue \<Rightarrow> Running trace)"

section \<open>Notions used to state the properties\<close>

text \<open>
  The variables with which iteration \<open>k\<close> of a run starts: those given to the loop for
  the first iteration, those the iteration before left otherwise.
\<close>

definition vars_before :: "(control \<times> vars \<times> effect list) list \<Rightarrow> vars \<Rightarrow> nat \<Rightarrow> vars" where
  "vars_before steps v k = (case k of 0 \<Rightarrow> v | Suc j \<Rightarrow> step_vars (steps ! j))"

text \<open>
  The script has no event objects: an arrival is a run of the branch of lines 100 to
  137, which writes the record of line 107 once, and a departure is a run of the branch
  of lines 140 to 143, which writes the record of line 142 once.
\<close>

definition is_arrived :: "effect \<Rightarrow> bool" where
  "is_arrived e = (case e of Log INFO (PersonDetected n) \<Rightarrow> True | _ \<Rightarrow> False)"

definition is_departed :: "effect \<Rightarrow> bool" where
  "is_departed e = (case e of Log INFO PersonLeft \<Rightarrow> True | _ \<Rightarrow> False)"

text \<open>
  Inputs for the examples: an iteration whose frame is read, in which every library
  call returns, the photo is written and no key is pressed (\<open>waitKey\<close> returns \<open>-1\<close>), with one box in the
  frame or none, a clock reading and a frame number.
\<close>

definition sample_datetime :: "nat \<Rightarrow> nat \<Rightarrow> datetime" where
  "sample_datetime s us =
     \<lparr>year = 2024, month = 3, day = 7, hour = 9, minute = 5, second = s,
      microsecond = us\<rparr>"

definition sample_tick :: "bool \<Rightarrow> real \<Rightarrow> nat \<Rightarrow> tick_input" where
  "sample_tick d t f =
     \<lparr>read_ret = True, read_frame = f,
      infer_results = (if d then [[(10, 20, 30, 40)]] else [[]]),
      time_time = t, datetime_now = sample_datetime f 123456,
      plot_raises = None, imwrite_raises = None, imwrite_ret = True,
      notify_raises = None,
      imshow_raises = None, waitKey_ret = - 1\<rparr>"

text \<open>The exception that ends the photo block of lines 110 to 117, if one does.\<close>

definition photo_exception :: "tick_input \<Rightarrow> string option" where
  "photo_exception i = (case plot_raises i of Some e \<Rightarrow> Some e | None \<Rightarrow> imwrite_raises i)"

text \<open>
  The photo of an arrival is on disk when \<open>plot\<close> and \<open>imwrite\<close> both return and
  \<open>imwrite\<close> returns \<open>True\<close>.
\<close>

definition photo_persisted :: "tick_input \<Rightarrow> bool" where
  "photo_persisted i \<longleftrightarrow> plot_raises i = None \<and> imwrite_raises i = None \<and> imwrite_ret i"

definition is_error_record :: "effect \<Rightarrow> bool" where
  "is_error_record e = (case e of Log ERROR m \<Rightarrow> True | _ \<Rightarrow> False)"

definition is_photo_or_notification :: "effect \<Rightarrow> bool" where
  "is_photo_or_notification e =
     (case e of Plot_call \<Rightarrow> True | Imwrite fn img \<Rightarrow> True | Notify \<Rightarrow> True | _ \<Rightarrow> False)"

text \<open>The effects of the block of lines 121 to 134, and the calls of \<open>plot\<close>.\<close>

definition is_notification_effect :: "effect \<Rightarrow> bool" where
  "is_notification_effect e =
     (case e of
        Notify \<Rightarrow> True
      | Log s m \<Rightarrow>
          (case m of
             NotificationSent \<Rightarrow> True
           | NotificationFailed x \<Rightarrow> True
           | NotificationSkipped \<Rightarrow> True
           | _ \<Rightarrow> False)
      | _ \<Rightarrow> False)"

definition is_plot :: "effect \<Rightarrow> bool" where
  "is_plot e = (case e of Plot_call \<Rightarrow> True | _ \<Rightarrow> False)"

section \<open>Facts about the loop\<close>

lemmas tick_defs =
  tick_def person_detected_current_frame_def arrival_branch_def departure_branch_def
  save_photo_def send_notification_def display_def imshow_def Let_def

lemmas sample_defs =
  sample_tick_def sample_datetime_def quit_requested_def initial_vars_def
  notification_cooldown_def

lemma arrival_branch_Some:
  "person_detected_current_frame results \<Longrightarrow> arrival_branch i results v \<noteq> None"
  by (cases results)
    (simp_all add: person_detected_current_frame_def arrival_branch_def Let_def
      split: prod.splits)

text \<open>The \<open>IndexError\<close> of line 106 cannot happen: the guard of line 96 excludes it.\<close>

lemma tick_no_crash: "fst (tick i v) \<noteq> Crash"
  using arrival_branch_Some [of "infer_results i" i v]
  by (auto simp: tick_def Let_def split: option.splits prod.splits)

lemma main_loop_length: "length (main_loop ins v) \<le> length ins"
  by (induction ins arbitrary: v) (auto split: prod.splits control.splits)

text \<open>Iteration \<open>k\<close> of a run is the loop body on input \<open>k\<close> and the variables before it.\<close>

lemma main_loop_nth:
  "k < length (main_loop ins v) \<Longrightarrow>
   main_loop ins v ! k = tick (ins ! k) (vars_before (main_loop ins v) v k)"
proof (induction ins arbitrary: v k)
  case Nil
  then show ?case by simp
next
  case (Cons i ins)
  obtain c v' es where t: "tick i v = (c, v', es)" by (cases "tick i v") auto
  show ?case
  proof (cases k)
    case 0
    then show ?thesis using t by (cases c) (simp_all add: vars_before_def)
  next
    case (Suc j)
    with Cons.prems t have c: "c = Continue" by (cases c) simp_all
    with Cons.prems t Suc have j: "j < length (main_loop ins v')" by simp
    from Cons.IH [OF j] show ?thesis using t c Suc
      by (cases j) (simp_all add: vars_before_def step_vars_def)
  qed
qed

text \<open>Every iteration but the last one run ended with \<open>Continue\<close>.\<close>

lemma main_loop_prev_continue:
  "Suc k < length (main_loop ins v) \<Longrightarrow> step_ctl (main_loop ins v ! k) = Continue"
proof (induction ins arbitrary: v k)
  case Nil
  then show ?case by simp
next
  case (Cons i ins)
  obtain c v' es where t: "tick i v = (c, v', es)" by (cases "tick i v") auto
  with Cons.prems have c: "c = Continue" by (cases c) simp_all
  show ?case
  proof (cases k)
    case 0
    then show ?thesis using t c by (simp add: step_ctl_def)
  next
    case (Suc j)
    with Cons.prems t c have "Suc j < length (main_loop ins v')" by simp
    from Cons.IH [OF this] show ?thesis using t c Suc by simp
  qed
qed

lemma all_continue_length:
  "\<forall>s \<in> set (main_loop pre v). step_ctl s = Continue \<Longrightarrow>
   length (main_loop pre v) = length pre"
proof (induction pre arbitrary: v)
  case Nil
  then show ?case by simp
next
  case (Cons i pre)
  obtain c v' es where t: "tick i v = (c, v', es)" by (cases "tick i v") auto
  with Cons.prems have c: "c = Continue" by (cases c) (simp_all add: step_ctl_def)
  with Cons.prems t have "\<forall>s \<in> set (main_loop pre v'). step_ctl s = Continue" by simp
  from Cons.IH [OF this] show ?case using t c by simp
qed

text \<open>A run whose iterations all end with \<open>Continue\<close> goes on with the rest of the script.\<close>

lemma main_loop_append:
  "\<forall>s \<in> set (main_loop pre v). step_ctl s = Continue \<Longrightarrow>
   main_loop (pre @ rest) v =
     main_loop pre v @ main_loop rest (vars_before (main_loop pre v) v (length pre))"
proof (induction pre arbitrary: v)
  case Nil
  then show ?case by (simp add: vars_before_def)
next
  case (Cons i pre)
  obtain c v' es where t: "tick i v = (c, v', es)" by (cases "tick i v") auto
  with Cons.prems have c: "c = Continue" by (cases c) (simp_all add: step_ctl_def)
  with Cons.prems t have all: "\<forall>s \<in> set (main_loop pre v'). step_ctl s = Continue"
    by simp
  from Cons.IH [OF all] have ih: "main_loop (pre @ rest) v' =
     main_loop pre v' @ main_loop rest (vars_before (main_loop pre v') v' (length pre))" .
  have len: "length (main_loop pre v') = length pre"
    using all_continue_length [OF all] .
  show ?case using t c ih len
    by (cases pre) (simp_all add: vars_before_def step_vars_def nth_append)
qed

lemma tick_read_failure:
  "\<not> read_ret i \<Longrightarrow> tick i v = (Break, v, [Cap_read, Log WARNING CannotReadFrame])"
  by (simp add: tick_def)

section \<open>A frame that cannot be read\<close>

text \<open>
  C9. When \<open>cap.read()\<close> fails in an iteration, after any number of iterations that went
  on, the session ends there: the iteration asks for the frame once and logs the warning
  of line 87, no further frame is asked for, and the clean-up runs in full: the camera
  is released, the windows are closed and the two closing records are written. What the
  script holds after the failing input is never read.
\<close>

theorem read_failure_ends_session:
  assumes run: "\<forall>s \<in> set (main_loop pre initial_vars). step_ctl s = Continue"
    and fail: "\<not> read_ret i"
  shows "session (pre @ i # rest) =
           Exited (concat (map step_effects (main_loop pre initial_vars)) @
                   [Cap_read, Log WARNING CannotReadFrame] @
                   [Release, DestroyAllWindows, Log INFO Released, Log INFO ScriptEnd])"
proof -
  have "main_loop (pre @ i # rest) initial_vars =
          main_loop pre initial_vars @
          [(Break, vars_before (main_loop pre initial_vars) initial_vars (length pre),
            [Cap_read, Log WARNING CannotReadFrame])]"
    using main_loop_append [OF run, of "i # rest"] tick_read_failure [OF fail] by simp
  then show ?thesis
    by (simp add: session_def loop_exit_def step_ctl_def step_effects_def cleanup_def
        Let_def)
qed

theorem read_failure_ends_session_witness:
  "session ([sample_tick False 100 0] @
            (sample_tick False 101 1)\<lparr>read_ret := False\<rparr> # [sample_tick False 102 2]) =
     Exited [Cap_read, Imshow (Frame 0),
             Cap_read, Log WARNING CannotReadFrame,
             Release, DestroyAllWindows, Log INFO Released, Log INFO ScriptEnd]"
  using read_failure_ends_session
    [of "[sample_tick False 100 0]" "(sample_tick False 101 1)\<lparr>read_ret := False\<rparr>"
        "[sample_tick False 102 2]"]
  by (simp add: tick_defs sample_defs step_ctl_def step_effects_def)

section \<open>Arrivals and departures\<close>

text \<open>The shape of an iteration that takes the branch of lines 100 to 137.\<close>

lemma tick_arrival:
  assumes "read_ret i" and "infer_results i = r # rs" and "r \<noteq> []"
    and "\<not> person_detected_previously v"
  shows "tick i v =
           (let p = save_photo i r (timestamp_str (datetime_now i)) v;
                n = send_notification i (time_time i) (fst p);
                v' = (fst n)\<lparr>person_detected_previously := True\<rparr>
            in (if quit_requested i then Break else Continue, v',
                [Cap_read, Log INFO (PersonDetected (length r))] @ snd p @ snd n @
                display i True v' @ (if quit_requested i then [Log INFO QuitKey] else [])))"
  using assms
  by (simp add: tick_def person_detected_current_frame_def arrival_branch_def Let_def
      split: prod.splits)

lemma arrived_in_tick:
  assumes "Log INFO (PersonDetected n) \<in> set (snd (snd (tick i v)))"
  shows "\<exists>r rs. infer_results i = r # rs \<and> r \<noteq> [] \<and> n = length r \<and> 1 \<le> n \<and>
           \<not> person_detected_previously v"
  using assms
  by (auto simp: tick_defs Suc_le_eq
      split: if_splits option.splits prod.splits list.splits)

text \<open>
  C10. In every iteration of every run, from any variables: a record of line 107 with
  count \<open>n\<close> is written only when the detector's first result has boxes, \<open>n\<close> is the
  number of those boxes, so at least 1, and nobody was detected before.
\<close>

theorem arrival_count_positive:
  assumes k: "k < length (main_loop ins v)"
    and log: "Log INFO (PersonDetected n) \<in> set (step_effects (main_loop ins v ! k))"
  shows "\<exists>r rs. infer_results (ins ! k) = r # rs \<and> r \<noteq> [] \<and> n = length r \<and> 1 \<le> n \<and>
           \<not> person_detected_previously (vars_before (main_loop ins v) v k)"
  using log arrived_in_tick [of n "ins ! k" "vars_before (main_loop ins v) v k"]
  by (simp add: main_loop_nth [OF k] step_effects_def)

theorem arrival_count_positive_witness:
  "0 < length (main_loop [sample_tick True 100 0] initial_vars) \<and>
   Log INFO (PersonDetected 1) \<in>
     set (step_effects (main_loop [sample_tick True 100 0] initial_vars ! 0)) \<and>
   (\<exists>r rs. infer_results ([sample_tick True 100 0] ! 0) = r # rs \<and> r \<noteq> [] \<and>
      (1::nat) = length r \<and> (1::nat) \<le> 1 \<and>
      \<not> person_detected_previously
          (vars_before (main_loop [sample_tick True 100 0] initial_vars) initial_vars 0))"
proof -
  have k: "0 < length (main_loop [sample_tick True 100 0] initial_vars)"
    by (simp add: tick_defs sample_defs)
  have log: "Log INFO (PersonDetected 1) \<in>
      set (step_effects (main_loop [sample_tick True 100 0] initial_vars ! 0))"
    by (simp add: tick_defs sample_defs step_effects_def)
  from arrival_count_positive [OF k log] k log show ?thesis by blast
qed

text \<open>
  C5. In an iteration whose frame is read: if a person is detected and none was before,
  the iteration writes the record of line 107 and calls \<open>plot\<close>, and calls \<open>imwrite\<close>
  with the file name of the timestamp when \<open>plot\<close> returns, for any value of
  \<open>last_notification_time\<close> and any clock reading, that is whatever the cooldown
  decides. If nobody is detected and a person was before, the branch of lines 140 to
  143 writes exactly the record of line 142; the iteration then shows the raw frame and
  checks the key, and makes no call of \<open>plot\<close>, \<open>imwrite\<close> or \<open>notify\<close>.
\<close>

theorem arrival_and_departure_effects:
  assumes "read_ret i"
  shows "(person_detected_current_frame (infer_results i) \<and> \<not> person_detected_previously v \<longrightarrow>
            (\<exists>r rs es. infer_results i = r # rs \<and>
               step_effects (tick i v) =
                 Cap_read # Log INFO (PersonDetected (length r)) # Plot_call # es \<and>
               (plot_raises i = None \<longrightarrow>
                  (\<exists>es'. es = Imwrite (photo_filename (timestamp_str (datetime_now i)))
                                  (Annotated (read_frame i) r) # es')))) \<and>
         (\<not> person_detected_current_frame (infer_results i) \<and> person_detected_previously v \<longrightarrow>
            departure_branch v =
              (v\<lparr>person_detected_previously := False\<rparr>, [Log INFO PersonLeft]) \<and>
            step_effects (tick i v) =
              [Cap_read, Log INFO PersonLeft] @ imshow i (Frame (read_frame i)) @
              (if quit_requested i then [Log INFO QuitKey] else []) \<and>
            filter is_photo_or_notification (step_effects (tick i v)) = [])"
  using assms
  by (auto simp: tick_defs step_effects_def is_photo_or_notification_def
      split: if_splits option.splits prod.splits list.splits)

theorem arrival_and_departure_effects_witness:
  "read_ret (sample_tick False 101 1) \<and>
   \<not> person_detected_current_frame (infer_results (sample_tick False 101 1)) \<and>
   person_detected_previously (initial_vars\<lparr>person_detected_previously := True\<rparr>) \<and>
   step_effects (tick (sample_tick False 101 1)
                   (initial_vars\<lparr>person_detected_previously := True\<rparr>)) =
     [Cap_read, Log INFO PersonLeft, Imshow (Frame 1)]"
proof -
  have rd: "read_ret (sample_tick False 101 1)"
    by (simp add: sample_tick_def)
  have side: "\<not> person_detected_current_frame (infer_results (sample_tick False 101 1)) \<and>
      person_detected_previously (initial_vars\<lparr>person_detected_previously := True\<rparr>)"
    by (simp add: sample_tick_def person_detected_current_frame_def)
  from arrival_and_departure_effects [OF rd, of "initial_vars\<lparr>person_detected_previously := True\<rparr>"] side
  have "step_effects (tick (sample_tick False 101 1)
                        (initial_vars\<lparr>person_detected_previously := True\<rparr>)) =
          [Cap_read, Log INFO PersonLeft] @
          imshow (sample_tick False 101 1) (Frame (read_frame (sample_tick False 101 1))) @
          (if quit_requested (sample_tick False 101 1) then [Log INFO QuitKey] else [])"
    by blast
  then show ?thesis using rd side
    by (simp add: imshow_def sample_tick_def quit_requested_def)
qed

section \<open>A photo that cannot be saved\<close>

lemma save_photo_exception:
  "photo_exception i = Some e \<Longrightarrow>
   last (snd (save_photo i r ts v)) = Log ERROR (PhotoSaveFailed (Raised e))"
  by (auto simp: photo_exception_def save_photo_def Let_def split: option.splits)

lemma send_notification_effects:
  "Notify \<in> set (snd (send_notification i t v)) \<or>
   snd (send_notification i t v) = [Log INFO NotificationSkipped]"
  by (simp add: send_notification_def split: option.splits)

text \<open>
  The path the script handles. In an iteration that takes the arrival branch and in
  which \<open>plot\<close> or \<open>imwrite\<close> raises \<open>e\<close>: the record of line 107 comes first, the photo
  block ends with the error record of line 117, the block of lines 121 to 134 runs
  after it (it calls \<open>notify\<close> or logs that the cooldown skipped it), the window is
  updated, and the iteration ends like any other: the loop goes on to the next input
  unless the quit key was pressed.
\<close>

lemma photo_exception_is_contained:
  assumes rd: "read_ret i"
    and res: "infer_results i = r # rs" and r: "r \<noteq> []"
    and prev: "\<not> person_detected_previously v"
    and fail: "photo_exception i = Some e"
  shows "(let p = save_photo i r (timestamp_str (datetime_now i)) v;
              n = send_notification i (time_time i) (fst p)
          in last (snd p) = Log ERROR (PhotoSaveFailed (Raised e)) \<and>
             step_effects (tick i v) =
               [Cap_read, Log INFO (PersonDetected (length r))] @ snd p @ snd n @
               display i True (step_vars (tick i v)) @
               (if quit_requested i then [Log INFO QuitKey] else []) \<and>
             (Notify \<in> set (snd n) \<or> snd n = [Log INFO NotificationSkipped]) \<and>
             step_ctl (tick i v) = (if quit_requested i then Break else Continue) \<and>
             main_loop (i # ins) v =
               tick i v #
               (if quit_requested i then [] else main_loop ins (step_vars (tick i v))))"
  using save_photo_exception [OF fail, of r "timestamp_str (datetime_now i)" v]
    send_notification_effects
      [of i "time_time i" "fst (save_photo i r (timestamp_str (datetime_now i)) v)"]
  by (simp add: tick_arrival [OF rd res r prev] Let_def step_effects_def step_ctl_def
      step_vars_def)

text \<open>
  C6 says that a photo that cannot be saved is caught and logged at error severity,
  after the arrival record, with the notification still attempted and the loop going
  on. The script does so when \<open>plot\<close> or \<open>imwrite\<close> raises, and its comment on line 118
  says that a photo that cannot be saved must not stop the loop. It misses the failure
  that \<open>imwrite\<close> reports by returning \<open>False\<close>: line 114 drops the value. In an arrival
  whose photo is not written (\<open>imwrite\<close> returns \<open>False\<close>, every other call returns),
  the iteration logs the photo as saved at info severity (line 115) and writes no error
  record at all; the notification is sent and the loop goes on.
\<close>

theorem unwritten_photo_is_logged_as_saved:
  "\<not> photo_persisted ((sample_tick True 1700000000 0)\<lparr>imwrite_ret := False\<rparr>) \<and>
   tick ((sample_tick True 1700000000 0)\<lparr>imwrite_ret := False\<rparr>) initial_vars =
     (Continue,
      \<lparr>person_detected_previously = True, last_notification_time = 1700000000,
       annotated_frame = Some (Annotated 0 [(10, 20, 30, 40)])\<rparr>,
      [Cap_read, Log INFO (PersonDetected 1), Plot_call,
       Imwrite (photo_filename (timestamp_str (sample_datetime 0 123456)))
         (Annotated 0 [(10, 20, 30, 40)]),
       Log INFO (PhotoSaved (photo_filename (timestamp_str (sample_datetime 0 123456)))),
       Notify, Log INFO NotificationSent, Imshow (Annotated 0 [(10, 20, 30, 40)])]) \<and>
   filter is_error_record
     (step_effects (tick ((sample_tick True 1700000000 0)\<lparr>imwrite_ret := False\<rparr>)
        initial_vars)) = []"
  by (simp add: tick_defs sample_defs step_effects_def photo_persisted_def
      is_error_record_def)

section \<open>The cooldown of the notification\<close>

text \<open>
  C2, as the script has it. \<open>last_notification_time\<close> is a number that starts at 0; it
  has no value for "never". The block of lines 121 to 134 calls \<open>notify\<close> exactly when
  \<open>now - last_notification_time\<close> exceeds the cooldown. It assigns
  \<open>last_notification_time = now\<close> exactly when it made the call and the call returned;
  when the cooldown skips the call, and also when the call raises, the variables stay as
  they were.
\<close>

theorem cooldown_gate:
  assumes "send_notification i now v = (v', es)"
  shows "(Notify \<in> set es \<longleftrightarrow> now - last_notification_time v > notification_cooldown) \<and>
         v' = (if now - last_notification_time v > notification_cooldown \<and>
                  notify_raises i = None
               then v\<lparr>last_notification_time := now\<rparr> else v)"
  using assms by (auto simp: send_notification_def split: if_splits option.splits)

theorem cooldown_gate_witness:
  "send_notification (sample_tick True 100 0) 100 initial_vars =
     (initial_vars\<lparr>last_notification_time := 100\<rparr>, [Notify, Log INFO NotificationSent]) \<and>
   Notify \<in> set [Notify, Log INFO NotificationSent] \<and>
   (100::real) - last_notification_time initial_vars > notification_cooldown"
proof -
  have run: "send_notification (sample_tick True 100 0) 100 initial_vars =
     (initial_vars\<lparr>last_notification_time := 100\<rparr>, [Notify, Log INFO NotificationSent])"
    by (simp add: send_notification_def sample_defs)
  from cooldown_gate [OF run] show ?thesis using run by simp
qed

text \<open>
  The claim as the specification words it fails twice. When \<open>notify\<close> raises, the gate
  has let the call through (the time elapsed exceeds the cooldown) and nothing is
  recorded. And at the first call of a session, with nothing recorded yet, a clock
  reading of 10 is within the cooldown of the initial 0, and the call is skipped.
\<close>

theorem cooldown_gate_counterexample:
  "(100::real) - last_notification_time initial_vars > notification_cooldown \<and>
   send_notification ((sample_tick True 100 0)\<lparr>notify_raises := Some ''no display''\<rparr>)
       100 initial_vars =
     (initial_vars, [Notify, Log ERROR (NotificationFailed (Raised ''no display''))]) \<and>
   last_notification_time initial_vars \<noteq> 100 \<and>
   send_notification (sample_tick True 10 0) 10 initial_vars =
     (initial_vars, [Log INFO NotificationSkipped])"
  by (simp add: send_notification_def sample_defs)

section \<open>What one iteration does to the variables and to the outside\<close>

lemma main_loop_Nil: "main_loop [] v = []"
  by simp

lemma main_loop_Cons:
  "main_loop (i # ins) v =
     tick i v #
     (if step_ctl (tick i v) = Continue then main_loop ins (step_vars (tick i v)) else [])"
  by (cases "tick i v" rule: prod_cases3; cases "fst (tick i v)")
    (simp_all add: step_ctl_def step_vars_def)

lemma tick_continue_read: "step_ctl (tick i v) = Continue \<Longrightarrow> read_ret i"
  by (auto simp: tick_def step_ctl_def split: if_splits)

lemma tick_ctl:
  "read_ret i \<Longrightarrow> step_ctl (tick i v) = (if quit_requested i then Break else Continue)"
  using arrival_branch_Some [of "infer_results i" i v]
  by (auto simp: tick_def Let_def step_ctl_def split: option.splits prod.splits)

lemma tick_presence_after:
  "read_ret i \<Longrightarrow>
   person_detected_previously (step_vars (tick i v)) =
     person_detected_current_frame (infer_results i)"
  by (auto simp: tick_defs step_vars_def
      split: if_splits option.splits prod.splits list.splits)

lemma tick_arrived_count:
  "read_ret i \<Longrightarrow>
   length (filter is_arrived (step_effects (tick i v))) =
     (if \<not> person_detected_previously v \<and> person_detected_current_frame (infer_results i)
      then 1 else 0)"
  by (auto simp: tick_defs step_effects_def is_arrived_def
      split: if_splits option.splits prod.splits list.splits)

lemma tick_departed_count:
  "read_ret i \<Longrightarrow>
   length (filter is_departed (step_effects (tick i v))) =
     (if person_detected_previously v \<and> \<not> person_detected_current_frame (infer_results i)
      then 1 else 0)"
  by (auto simp: tick_defs step_effects_def is_departed_def
      split: if_splits option.splits prod.splits list.splits)

lemma tick_plot_count:
  "read_ret i \<Longrightarrow>
   length (filter is_plot (step_effects (tick i v))) =
     (if \<not> person_detected_previously v \<and> person_detected_current_frame (infer_results i)
      then 1 else 0)"
  by (auto simp: tick_defs step_effects_def is_plot_def
      split: if_splits option.splits prod.splits list.splits)

lemma tick_notification_effects:
  "read_ret i \<Longrightarrow>
   filter is_notification_effect (step_effects (tick i v)) =
     (if \<not> person_detected_previously v \<and> person_detected_current_frame (infer_results i)
      then (if notification_cooldown < time_time i - last_notification_time v
            then (case notify_raises i of
                    None \<Rightarrow> [Notify, Log INFO NotificationSent]
                  | Some e \<Rightarrow> [Notify, Log ERROR (NotificationFailed (Raised e))])
            else [Log INFO NotificationSkipped])
      else [])"
  by (auto simp: tick_defs step_effects_def is_notification_effect_def
      split: if_splits option.splits prod.splits list.splits)

lemma tick_last_after:
  "read_ret i \<Longrightarrow>
   last_notification_time (step_vars (tick i v)) =
     (if \<not> person_detected_previously v \<and> person_detected_current_frame (infer_results i) \<and>
         notification_cooldown < time_time i - last_notification_time v \<and>
         notify_raises i = None
      then time_time i else last_notification_time v)"
  by (auto simp: tick_defs step_vars_def
      split: if_splits option.splits prod.splits list.splits)

lemma tick_no_transition:
  "read_ret i \<Longrightarrow>
   person_detected_current_frame (infer_results i) = person_detected_previously v \<Longrightarrow>
   step_vars (tick i v) = v \<and>
   step_effects (tick i v) =
     [Cap_read] @ display i (person_detected_previously v) v @
     (if quit_requested i then [Log INFO QuitKey] else [])"
  by (auto simp: tick_def Let_def step_vars_def step_effects_def)

lemmas run_summary =
  main_loop_Nil main_loop_Cons tick_ctl tick_presence_after tick_arrived_count
  tick_departed_count tick_plot_count tick_notification_effects tick_last_after Let_def

lemma sample_tick_fields:
  "read_ret (sample_tick d t f)" "\<not> quit_requested (sample_tick d t f)"
  "person_detected_current_frame (infer_results (sample_tick d t f)) = d"
  "time_time (sample_tick d t f) = t" "notify_raises (sample_tick d t f) = None"
  "read_frame (sample_tick d t f) = f"
  by (simp_all add: sample_tick_def quit_requested_def person_detected_current_frame_def)

section \<open>The presence state\<close>

text \<open>
  The state with which an iteration starts is what the detector said in the iteration
  before.
\<close>

lemma presence_before:
  assumes k: "k < length (main_loop ins v)"
  shows "person_detected_previously (vars_before (main_loop ins v) v k) =
           (case k of 0 \<Rightarrow> person_detected_previously v
            | Suc j \<Rightarrow> person_detected_current_frame (infer_results (ins ! j)))"
proof (cases k)
  case 0
  then show ?thesis by (simp add: vars_before_def)
next
  case (Suc j)
  with k have j: "j < length (main_loop ins v)" by simp
  from k Suc have "step_ctl (main_loop ins v ! j) = Continue"
    by (simp add: main_loop_prev_continue)
  then have "read_ret (ins ! j)"
    using tick_continue_read by (simp add: main_loop_nth [OF j])
  then show ?thesis using Suc
    by (simp add: vars_before_def main_loop_nth [OF j] tick_presence_after)
qed

text \<open>
  C1. Take any script of inputs, run the loop from the initial variables (nobody
  detected before), and look at any iteration \<open>k\<close> of the run whose frame was read.
  Let \<open>before\<close> be \<open>person_detected_previously\<close> at its start, \<open>d\<close> what the detector
  says in it and \<open>after\<close> the variable at its end. Then \<open>before\<close> is \<open>False\<close> in the first
  iteration and the detection of iteration \<open>k - 1\<close> later; \<open>after = d\<close>; the record of
  an arrival is written once if the state goes from absent to present and not at all
  otherwise; the record of a departure is written once if the state goes from present
  to absent and not at all otherwise; and if \<open>d\<close> equals \<open>before\<close> the iteration leaves
  all three variables as they were and does nothing but read the frame, update the
  window and check the key.
\<close>

theorem presence_tracker_edges:
  assumes k: "k < length (main_loop ins initial_vars)" and rd: "read_ret (ins ! k)"
  shows "(let steps = main_loop ins initial_vars;
              start = vars_before steps initial_vars k;
              before = person_detected_previously start;
              d = person_detected_current_frame (infer_results (ins ! k));
              after = person_detected_previously (step_vars (steps ! k));
              es = step_effects (steps ! k)
          in before = (case k of 0 \<Rightarrow> False
                       | Suc j \<Rightarrow> person_detected_current_frame (infer_results (ins ! j))) \<and>
             after = d \<and>
             length (filter is_arrived es) = (if \<not> before \<and> after then 1 else 0) \<and>
             length (filter is_departed es) = (if before \<and> \<not> after then 1 else 0) \<and>
             (d = before \<longrightarrow>
                step_vars (steps ! k) = start \<and>
                es = [Cap_read] @ display (ins ! k) before start @
                     (if quit_requested (ins ! k) then [Log INFO QuitKey] else [])))"
proof -
  have b: "person_detected_previously (vars_before (main_loop ins initial_vars) initial_vars k) =
      (case k of 0 \<Rightarrow> False
       | Suc j \<Rightarrow> person_detected_current_frame (infer_results (ins ! j)))"
    using presence_before [OF k] by (simp add: initial_vars_def split: nat.splits)
  show ?thesis
    unfolding Let_def main_loop_nth [OF k]
    using b tick_no_transition [OF rd, of "vars_before (main_loop ins initial_vars) initial_vars k"]
    by (simp add: tick_presence_after [OF rd] tick_arrived_count [OF rd]
        tick_departed_count [OF rd])
qed

theorem presence_tracker_edges_witness:
  "2 < length (main_loop [sample_tick True 100 0, sample_tick True 101 1,
                          sample_tick False 102 2] initial_vars) \<and>
   length (filter is_departed (step_effects
     (main_loop [sample_tick True 100 0, sample_tick True 101 1,
                 sample_tick False 102 2] initial_vars ! 2))) = 1 \<and>
   length (filter is_arrived (step_effects
     (main_loop [sample_tick True 100 0, sample_tick True 101 1,
                 sample_tick False 102 2] initial_vars ! 2))) = 0 \<and>
   \<not> person_detected_previously (step_vars
     (main_loop [sample_tick True 100 0, sample_tick True 101 1,
                 sample_tick False 102 2] initial_vars ! 2))"
proof -
  let ?ins = "[sample_tick True 100 0, sample_tick True 101 1, sample_tick False 102 2]"
  have len: "2 < length (main_loop ?ins initial_vars)"
    by (simp add: run_summary sample_tick_fields del: main_loop.simps(2))
  have rd: "read_ret (?ins ! 2)"
    by (simp add: sample_tick_fields)
  from presence_tracker_edges [OF len rd] show ?thesis using len
    by (simp add: Let_def sample_tick_fields del: main_loop.simps(2))
qed

section \<open>One delivery in a cooldown window\<close>

lemma tick_last_mono:
  "last_notification_time v \<le> last_notification_time (step_vars (tick i v))"
  by (auto simp: tick_defs step_vars_def notification_cooldown_def
      split: if_splits option.splits prod.splits list.splits)

lemma tick_sent:
  "Log INFO NotificationSent \<in> set (step_effects (tick i v)) \<Longrightarrow>
   last_notification_time (step_vars (tick i v)) = time_time i"
  by (auto simp: tick_defs step_effects_def step_vars_def
      split: if_splits option.splits prod.splits list.splits)

lemma tick_notify:
  "Notify \<in> set (step_effects (tick i v)) \<Longrightarrow>
   notification_cooldown < time_time i - last_notification_time v"
  by (auto simp: tick_defs step_effects_def
      split: if_splits option.splits prod.splits list.splits)

text \<open>\<open>last_notification_time\<close> never goes back during a run.\<close>

lemma main_loop_last_mono:
  "k2 < length (main_loop ins v) \<Longrightarrow> k1 \<le> k2 \<Longrightarrow>
   last_notification_time (step_vars (main_loop ins v ! k1)) \<le>
   last_notification_time (step_vars (main_loop ins v ! k2))"
proof (induction k2)
  case 0
  then show ?case by simp
next
  case (Suc j)
  show ?case
  proof (cases "k1 = Suc j")
    case True
    then show ?thesis by simp
  next
    case False
    with Suc.prems have le: "k1 \<le> j" and j: "j < length (main_loop ins v)" by simp_all
    have "last_notification_time (step_vars (main_loop ins v ! j)) \<le>
          last_notification_time (step_vars (main_loop ins v ! Suc j))"
      using tick_last_mono [of "step_vars (main_loop ins v ! j)" "ins ! Suc j"]
      by (simp add: main_loop_nth [OF Suc.prems(1)] vars_before_def)
    with Suc.IH [OF j le] show ?thesis by simp
  qed
qed

text \<open>
  C3, as the script has it. In any run, from any variables: if iteration \<open>k1\<close> delivered a
  notification (\<open>notify\<close> returned, line 130) at clock reading \<open>t1\<close>, then a later
  iteration \<open>k2\<close> whose clock reading \<open>t2\<close> has \<open>t1 < t2\<close> and
  \<open>t2 - t1 \<le> notification_cooldown\<close> does not call \<open>notify\<close>.
\<close>

theorem one_delivery_per_cooldown:
  assumes k: "k1 < k2" and len: "k2 < length (main_loop ins v)"
    and sent: "Log INFO NotificationSent \<in> set (step_effects (main_loop ins v ! k1))"
    and lt: "time_time (ins ! k1) < time_time (ins ! k2)"
    and win: "time_time (ins ! k2) - time_time (ins ! k1) \<le> notification_cooldown"
  shows "Notify \<notin> set (step_effects (main_loop ins v ! k2))"
proof
  assume n: "Notify \<in> set (step_effects (main_loop ins v ! k2))"
  from k obtain j where j: "k2 = Suc j" and kj: "k1 \<le> j" by (cases k2) auto
  from len j have jl: "j < length (main_loop ins v)" by simp
  from k len have k1l: "k1 < length (main_loop ins v)" by simp
  have t1: "last_notification_time (step_vars (main_loop ins v ! k1)) = time_time (ins ! k1)"
    using sent tick_sent by (simp add: main_loop_nth [OF k1l])
  have "time_time (ins ! k1) \<le> last_notification_time (step_vars (main_loop ins v ! j))"
    using main_loop_last_mono [OF jl kj] t1 by simp
  moreover have "main_loop ins v ! k2 = tick (ins ! k2) (step_vars (main_loop ins v ! j))"
    using main_loop_nth [OF len] by (simp add: j vars_before_def)
  with n have "notification_cooldown <
      time_time (ins ! k2) - last_notification_time (step_vars (main_loop ins v ! j))"
    using tick_notify [of "ins ! k2" "step_vars (main_loop ins v ! j)"] by simp
  ultimately show False using win by simp
qed

theorem one_delivery_per_cooldown_witness:
  "Log INFO NotificationSent \<in> set (step_effects
     (main_loop [sample_tick True 100 0, sample_tick False 101 1,
                 sample_tick True 102 2] initial_vars ! 0)) \<and>
   Notify \<notin> set (step_effects
     (main_loop [sample_tick True 100 0, sample_tick False 101 1,
                 sample_tick True 102 2] initial_vars ! 2))"
proof -
  let ?ins = "[sample_tick True 100 0, sample_tick False 101 1, sample_tick True 102 2]"
  have len: "2 < length (main_loop ?ins initial_vars)"
    by (simp add: run_summary sample_tick_fields del: main_loop.simps(2))
  have sent: "Log INFO NotificationSent \<in> set (step_effects (main_loop ?ins initial_vars ! 0))"
    by (simp add: tick_defs sample_defs step_effects_def)
  have lt: "time_time (?ins ! 0) < time_time (?ins ! 2)"
    and win: "time_time (?ins ! 2) - time_time (?ins ! 0) \<le> notification_cooldown"
    by (simp_all add: sample_tick_fields notification_cooldown_def)
  have k: "(0::nat) < 2" by simp
  from one_delivery_per_cooldown [OF k len sent lt win] sent show ?thesis by simp
qed

text \<open>
  The claim as the specification words it fails when the first call of \<open>notify\<close> raises:
  nothing is recorded, and the arrival two seconds later calls \<open>notify\<close> again. Both
  decisions let the notification through, 2 seconds apart.
\<close>

theorem one_delivery_per_cooldown_counterexample:
  "Notify \<in> set (step_effects
     (main_loop [(sample_tick True 100 0)\<lparr>notify_raises := Some ''no display''\<rparr>,
                 sample_tick False 101 1, sample_tick True 102 2] initial_vars ! 0)) \<and>
   Notify \<in> set (step_effects
     (main_loop [(sample_tick True 100 0)\<lparr>notify_raises := Some ''no display''\<rparr>,
                 sample_tick False 101 1, sample_tick True 102 2] initial_vars ! 2)) \<and>
   time_time ((sample_tick True 100 0)\<lparr>notify_raises := Some ''no display''\<rparr>) <
     time_time (sample_tick True 102 2) \<and>
   time_time (sample_tick True 102 2) -
     time_time ((sample_tick True 100 0)\<lparr>notify_raises := Some ''no display''\<rparr>) \<le>
     notification_cooldown"
  by (simp add: tick_defs sample_defs step_effects_def)

section \<open>A person who comes and goes three times\<close>



section \<open>The window\<close>

text \<open>
  C7 says that every iteration shows the frame it has read, annotated if a person is
  detected in it and raw otherwise, as the comments of lines 146 and 149 do. The script
  does not: \<open>annotated_frame\<close> is assigned in the arrival branch only (line 112), and
  line 150 shows it in every iteration that detects a person. In the second of two
  iterations that both detect a person, the frame read is frame 1 and the window shows
  the annotated frame 0 of the iteration before.
\<close>

theorem stale_frame_is_displayed:
  "read_frame (sample_tick True 101 1) = 1 \<and>
   map step_effects (main_loop [sample_tick True 100 0, sample_tick True 101 1] initial_vars) =
     [[Cap_read, Log INFO (PersonDetected 1), Plot_call,
       Imwrite (photo_filename (timestamp_str (sample_datetime 0 123456)))
         (Annotated 0 [(10, 20, 30, 40)]),
       Log INFO (PhotoSaved (photo_filename (timestamp_str (sample_datetime 0 123456)))),
       Notify, Log INFO NotificationSent, Imshow (Annotated 0 [(10, 20, 30, 40)])],
      [Cap_read, Imshow (Annotated 0 [(10, 20, 30, 40)])]]"
  by (simp add: tick_defs sample_defs step_effects_def)

section \<open>The file names of the photos\<close>

lemma digit_char_inj:
  assumes "a < 10" and "b < 10"
  shows "digit_char a = digit_char b \<longleftrightarrow> a = b"
proof -
  have "(48 + a) mod 256 = 48 + a" "(48 + b) mod 256 = 48 + b"
    using assms by simp_all
  then show ?thesis by (simp add: digit_char_def char_of_quasi_inj)
qed

lemma zpad_length: "length (zpad w n) = w"
  by (induction w arbitrary: n) simp_all

lemma decimal_split:
  assumes e: "10 * x + r = 10 * y + s" and r: "r < 10" and s: "s < 10"
  shows "x = y \<and> r = (s::nat)"
proof -
  from e have "(10 * x + r) mod 10 = (10 * y + s) mod 10" by simp
  with r s have rs: "r = s" by simp
  with e show ?thesis by simp
qed

lemma mod_Suc_power10:
  "(a::nat) mod 10 ^ Suc w = b mod 10 ^ Suc w \<longleftrightarrow>
   (a div 10) mod 10 ^ w = (b div 10) mod 10 ^ w \<and> a mod 10 = b mod 10"
proof -
  have e: "\<And>x::nat. x mod 10 ^ Suc w = 10 * ((x div 10) mod 10 ^ w) + x mod 10"
    by (simp add: mod_mult2_eq)
  show ?thesis
  proof
    assume h: "a mod 10 ^ Suc w = b mod 10 ^ Suc w"
    then have "10 * ((a div 10) mod 10 ^ w) + a mod 10 = 10 * ((b div 10) mod 10 ^ w) + b mod 10"
      by (simp only: e)
    then show "(a div 10) mod 10 ^ w = (b div 10) mod 10 ^ w \<and> a mod 10 = b mod 10"
      by (rule decimal_split) simp_all
  next
    assume "(a div 10) mod 10 ^ w = (b div 10) mod 10 ^ w \<and> a mod 10 = b mod 10"
    then show "a mod 10 ^ Suc w = b mod 10 ^ Suc w" by (simp only: e)
  qed
qed

text \<open>Two numbers print alike on \<open>w\<close> digits exactly when their last \<open>w\<close> digits agree.\<close>

lemma zpad_eq_iff: "zpad w a = zpad w b \<longleftrightarrow> a mod 10 ^ w = b mod 10 ^ w"
proof (induction w arbitrary: a b)
  case 0
  then show ?case by simp
next
  case (Suc w)
  have "zpad (Suc w) a = zpad (Suc w) b \<longleftrightarrow>
          zpad w (a div 10) = zpad w (b div 10) \<and> a mod 10 = b mod 10"
    by (simp add: digit_char_inj)
  also have "\<dots> \<longleftrightarrow> (a div 10) mod 10 ^ w = (b div 10) mod 10 ^ w \<and> a mod 10 = b mod 10"
    by (simp only: Suc.IH)
  also have "\<dots> \<longleftrightarrow> a mod 10 ^ Suc w = b mod 10 ^ Suc w"
    by (simp only: mod_Suc_power10)
  finally show ?case .
qed

lemma take_zpad: "take a (zpad (a + b) n) = zpad a (n div 10 ^ b)"
proof (induction b arbitrary: n)
  case 0
  then show ?case by (simp add: zpad_length)
next
  case (Suc b)
  have "take a (zpad (a + Suc b) n) = take a (zpad (a + b) (n div 10))"
    by (simp add: zpad_length)
  also have "\<dots> = zpad a (n div 10 div 10 ^ b)" by (rule Suc.IH)
  also have "n div 10 div 10 ^ b = n div 10 ^ Suc b" by (simp add: div_mult2_eq)
  finally show ?case .
qed

lemma take3_zpad6: "take 3 (zpad 6 n) = zpad 3 (n div 1000)"
  using take_zpad [of 3 3 n] by simp

text \<open>The slice of line 103 leaves the milliseconds of the six digits of \<open>%f\<close>.\<close>

lemma timestamp_str_eq:
  "timestamp_str d =
     zpad 4 (year d) @ zpad 2 (month d) @ zpad 2 (day d) @ ''_'' @
     zpad 2 (hour d) @ zpad 2 (minute d) @ zpad 2 (second d) @ ''_'' @
     zpad 3 (microsecond d div 1000)"
  by (simp add: timestamp_str_def strftime_def Let_def zpad_length take3_zpad6)

lemma photo_filename_eq:
  "photo_filename ts = ''detected_persons/person_'' @ ts @ ''.jpg''"
  by (simp add: photo_filename_def os_path_join_def photo_dir_def)

lemma photo_filename_inj: "photo_filename s = photo_filename t \<longleftrightarrow> s = t"
  by (simp add: photo_filename_eq)

lemma timestamp_str_inj:
  "timestamp_str d1 = timestamp_str d2 \<longleftrightarrow>
     year d1 mod 10 ^ 4 = year d2 mod 10 ^ 4 \<and> month d1 mod 10 ^ 2 = month d2 mod 10 ^ 2 \<and>
     day d1 mod 10 ^ 2 = day d2 mod 10 ^ 2 \<and> hour d1 mod 10 ^ 2 = hour d2 mod 10 ^ 2 \<and>
     minute d1 mod 10 ^ 2 = minute d2 mod 10 ^ 2 \<and>
     second d1 mod 10 ^ 2 = second d2 mod 10 ^ 2 \<and>
     (microsecond d1 div 1000) mod 10 ^ 3 = (microsecond d2 div 1000) mod 10 ^ 3"
  by (simp only: timestamp_str_eq append_eq_append_conv zpad_length zpad_eq_iff
      append_same_eq same_append_eq simp_thms)

text \<open>
  C8, as the script has it. The file name carries the timestamp down to the
  millisecond: the photos of two arrivals have the same name exactly when their
  timestamps agree in date, hour, minute, second and millisecond. Two arrivals in the
  same second get distinct names if and only if they fall in different milliseconds.
\<close>

theorem filenames_differ_by_millisecond:
  assumes "valid_datetime d1" and "valid_datetime d2"
  shows "photo_filename (timestamp_str d1) = photo_filename (timestamp_str d2) \<longleftrightarrow>
           year d1 = year d2 \<and> month d1 = month d2 \<and> day d1 = day d2 \<and>
           hour d1 = hour d2 \<and> minute d1 = minute d2 \<and> second d1 = second d2 \<and>
           microsecond d1 div 1000 = microsecond d2 div 1000"
proof -
  have us: "microsecond d1 div 1000 < 1000" "microsecond d2 div 1000 < 1000"
    using assms by (simp_all add: valid_datetime_def less_mult_imp_div_less)
  have b: "year d1 < 10 ^ 4" "year d2 < 10 ^ 4" "month d1 < 10 ^ 2" "month d2 < 10 ^ 2"
    "day d1 < 10 ^ 2" "day d2 < 10 ^ 2" "hour d1 < 10 ^ 2" "hour d2 < 10 ^ 2"
    "minute d1 < 10 ^ 2" "minute d2 < 10 ^ 2" "second d1 < 10 ^ 2" "second d2 < 10 ^ 2"
    "microsecond d1 div 1000 < 10 ^ 3" "microsecond d2 div 1000 < 10 ^ 3"
    using assms us by (simp_all add: valid_datetime_def)
  show ?thesis
    by (simp only: photo_filename_inj timestamp_str_inj mod_less b)
qed

theorem filenames_differ_by_millisecond_witness:
  "valid_datetime (sample_datetime 5 123000) \<and> valid_datetime (sample_datetime 5 124000) \<and>
   photo_filename (timestamp_str (sample_datetime 5 123000)) \<noteq>
   photo_filename (timestamp_str (sample_datetime 5 124000))"
proof -
  have v: "valid_datetime (sample_datetime 5 123000)" "valid_datetime (sample_datetime 5 124000)"
    by (simp_all add: valid_datetime_def sample_datetime_def)
  from filenames_differ_by_millisecond [OF v] v show ?thesis
    by (simp add: sample_datetime_def)
qed

text \<open>
  Two arrivals in the same second at distinct timestamps, 123000 and 123999
  microseconds, get the same file name: both are in millisecond 123.
\<close>

theorem filenames_differ_by_millisecond_counterexample:
  "valid_datetime (sample_datetime 5 123000) \<and> valid_datetime (sample_datetime 5 123999) \<and>
   sample_datetime 5 123000 \<noteq> sample_datetime 5 123999 \<and>
   second (sample_datetime 5 123000) = second (sample_datetime 5 123999) \<and>
   photo_filename (timestamp_str (sample_datetime 5 123000)) =
   photo_filename (timestamp_str (sample_datetime 5 123999))"
  by (simp add: valid_datetime_def sample_datetime_def timestamp_str_eq)

end
